theory Spec2Isabelle
  imports Complex_Main "HOL-Library.Word"
begin

chapter \<open>Tensiometer rig sketches: force filter, automatic speed test, mode-based tester\<close>

text \<open>
  The repository is a set of Arduino sketches. Three of them carry the behaviour
  that is verified here:
  \<^item> \<^verbatim>\<open>loadcell_100g.ino\<close>: the load-cell scale with its moving-average and
    dead-band filter;
  \<^item> \<^verbatim>\<open>Auto_Motor_Gyro_test/AutoSpeedTest.ino.ino\<close>: the automatic eight-speed test
    (variables \<^verbatim>\<open>autoTestMode\<close>, \<^verbatim>\<open>testState\<close>, \<^verbatim>\<open>currentTestIndex\<close>);
  \<^item> the sketch "Surface Tension Tester v5.0 - Mode-Based Architecture", stored inside
    \<^verbatim>\<open>MPU9250_Vibration_Monitor.ino\<close> (lines 360 to 1162 of that file).

  Conventions of the embedding.
  \<^item> A C \<^verbatim>\<open>float\<close> is modelled as a \<^typ>\<open>real\<close>: arithmetic is exact, rounding and
    the special values of IEEE arithmetic are not represented.
  \<^item> A C \<^verbatim>\<open>long\<close> step position is modelled as an \<^typ>\<open>int\<close>; the rig travels
    tens of thousands of steps, and overflow of the 32-bit position is not represented.
  \<^item> \<^verbatim>\<open>millis()\<close> readings are \<^typ>\<open>32 word\<close> values supplied by the environment.
  \<^item> Every global variable of a sketch is a field of a record which each function takes
    and returns.
\<close>

section \<open>loadcell\_100g.ino: the force filter\<close>
















subsection \<open>The buffer invariant is kept by every operation\<close>










subsection \<open>Repeated identical input fills the window\<close>













subsection \<open>The claims about the force filter\<close>




section \<open>The stepper planner used by the motor sketches\<close>

text \<open>
  The sketches drive the motor through the AccelStepper library, which is not part of the
  repository. It is represented by what the sketches use of it: the absolute position, the
  target of \<^verbatim>\<open>moveTo\<close>, and the rate, acceleration and constant speed last
  configured. A call of
  \<^verbatim>\<open>run()\<close> makes at most one step, towards the target, and only when a step is due;
  whether one is due depends on the clock and is an input (\<open>due\<close>). \<^verbatim>\<open>stop()\<close> moves the
  target to the point where the library will have decelerated; that distance is an input
  as well (\<open>overrun\<close>).
\<close>

record stepper =
  currentPosition :: int
  targetPos :: int
  maxSpeed :: real
  acceleration :: real
  speed_set :: real

definition distanceToGo :: "stepper \<Rightarrow> int" where
  "distanceToGo st = targetPos st - currentPosition st"

definition moveTo :: "int \<Rightarrow> stepper \<Rightarrow> stepper" where
  "moveTo absolute st = st\<lparr> targetPos := absolute \<rparr>"

definition setMaxSpeed :: "real \<Rightarrow> stepper \<Rightarrow> stepper" where
  "setMaxSpeed v st = st\<lparr> maxSpeed := v \<rparr>"

definition setAcceleration :: "real \<Rightarrow> stepper \<Rightarrow> stepper" where
  "setAcceleration a st = st\<lparr> acceleration := a \<rparr>"


definition run :: "bool \<Rightarrow> stepper \<Rightarrow> stepper" where
  "run due st =
     (if due \<and> distanceToGo st \<noteq> 0
      then st\<lparr> currentPosition :=
             (if 0 < distanceToGo st then currentPosition st + 1 else currentPosition st - 1) \<rparr>
      else st)"

definition stop :: "int \<Rightarrow> stepper \<Rightarrow> stepper" where
  "stop overrun st = st\<lparr> targetPos := currentPosition st + overrun \<rparr>"

text \<open>The blocking loop \<^verbatim>\<open>while (stepper.distanceToGo() != 0) stepper.run();\<close> of the
  manual go-home command. Passes of the loop in which no step is due change nothing and
  are not counted; the loop ends exactly when the target is reached.\<close>

function run_to_target :: "stepper \<Rightarrow> stepper" where
  "run_to_target st = (if distanceToGo st = 0 then st else run_to_target (run True st))"
  by pat_completeness auto
termination
  by (relation "measure (\<lambda>st. nat \<bar>distanceToGo st\<bar>)")
    (auto simp: run_def distanceToGo_def)

section \<open>AutoSpeedTest.ino.ino: the automatic eight-speed test\<close>

record SpeedTest =
  name :: string
  speed :: real
  speed_mms :: real

definition tests :: "SpeedTest list" where
  "tests =
    [\<lparr> name = ''ULTRA_FAST'', speed = 1600, speed_mms = 1000 \<rparr>,
     \<lparr> name = ''FAST_UP'', speed = 1200, speed_mms = 750 \<rparr>,
     \<lparr> name = ''FAST_DOWN'', speed = 400, speed_mms = 250 \<rparr>,
     \<lparr> name = ''MEASURE_F'', speed = 50, speed_mms = 0.03125 \<rparr>,
     \<lparr> name = ''MEASURE_M'', speed = 20, speed_mms = 0.0125 \<rparr>,
     \<lparr> name = ''MEASURE_U'', speed = 10, speed_mms = 0.00625 \<rparr>,
     \<lparr> name = ''MEASURE_X'', speed = 5, speed_mms = 0.003125 \<rparr>,
     \<lparr> name = ''MEASURE_Z'', speed = 2, speed_mms = 0.00125 \<rparr>]"

definition testDistance :: int where
  "testDistance = 56000"

definition homeSpeed :: real where
  "homeSpeed = 3200"

definition homeAccel :: real where
  "homeAccel = 1600"

definition LOG_INTERVAL :: "32 word" where
  "LOG_INTERVAL = 20"

datatype TestState = IDLE | MOVING | RETURNING | WAITING

text \<open>Reading \<^verbatim>\<open>tests[i]\<close> outside the eight entries is undefined behaviour in C; the
  model makes it a fault, so that a run of the model that ends without a fault has made no
  such access.\<close>

datatype fault = IndexOutOfBounds

definition tests_at :: "int \<Rightarrow> fault + SpeedTest" where
  "tests_at i = (if 0 \<le> i \<and> i < 8 then Inr (tests ! nat i) else Inl IndexOutOfBounds)"

text \<open>The lines written to the serial port, one constructor for each message of the
  sketch; numbers that a message prints are kept as arguments. A data row carries the
  elapsed milliseconds, the position in steps (the sketch prints it divided by 1600), the
  profile whose rate and name are printed, and the vibration value.\<close>

datatype line =
    AlreadyRunning
  | StartingAutoTest
  | TestBanner int SpeedTest int
  | MovingMsg
  | NoTestRunning
  | TestStopped
  | HomeSet int
  | GoingHomeManually
  | ManualHomeReached
  | TargetReached int
  | ReturningHome int int
  | ReturningDebug int int int
  | HomeReached int
  | AllCompleted
  | DATA_START
  | DATA_END
  | DataRow "32 word" int SpeedTest real

record ast =
  stepper :: stepper
  autoTestMode :: bool
  currentTestIndex :: int
  testState :: TestState
  homePosition :: int
  targetPosition :: int
  isLogging :: bool
  startTime :: "32 word"
  lastLogTime :: "32 word"
  lastDebug :: "32 word"
  baseline_magnitude :: real
  out :: "line list"

text \<open>What the environment supplies to one pass of \<^verbatim>\<open>loop()\<close>: the bytes waiting in
  the serial receive buffer, whether a motor step is due when \<^verbatim>\<open>run()\<close> is called, the
  deceleration distance of \<^verbatim>\<open>stop()\<close>, the readings of \<^verbatim>\<open>millis()\<close> (for the debug line
  of the state machine, inside \<^verbatim>\<open>startLogging\<close>, at the logging check of line 242, and
  inside \<^verbatim>\<open>logData\<close>), and the magnitude of the accelerometer vector computed at line
  348.\<close>

record tick =
  rx :: string
  due :: bool
  overrun :: int
  now :: "32 word"
  now_start :: "32 word"
  now_log :: "32 word"
  now_row :: "32 word"
  magnitude :: real

definition say :: "line list \<Rightarrow> ast \<Rightarrow> ast" where
  "say ls s = s\<lparr> out := out s @ ls \<rparr>"

text \<open>The globals after \<^verbatim>\<open>setup()\<close>; \<open>b\<close> is the baseline measured there, \<open>st\<close> the
  planner after \<^verbatim>\<open>setMaxSpeed(homeSpeed)\<close> and \<^verbatim>\<open>setAcceleration(homeAccel)\<close>.\<close>

definition setup_ast :: "real \<Rightarrow> ast" where
  "setup_ast b = \<lparr> stepper = \<lparr> currentPosition = 0, targetPos = 0, maxSpeed = homeSpeed,
       acceleration = homeAccel, speed_set = 0 \<rparr>,
     autoTestMode = False, currentTestIndex = 0, testState = IDLE, homePosition = 0,
     targetPosition = 0, isLogging = False, startTime = 0, lastLogTime = 0, lastDebug = 0,
     baseline_magnitude = b, out = [] \<rparr>"

text \<open>\<^verbatim>\<open>startLogging\<close> and \<^verbatim>\<open>stopLogging\<close>, lines 329 to 344.\<close>

definition startLogging :: "tick \<Rightarrow> ast \<Rightarrow> ast" where
  "startLogging i s =
     say [DATA_START]
       (s\<lparr> isLogging := True, startTime := now_start i, lastLogTime := now_start i \<rparr>)"

definition stopLogging :: "ast \<Rightarrow> ast" where
  "stopLogging s = (if \<not> isLogging s then s else say [DATA_END] (s\<lparr> isLogging := False \<rparr>))"

text \<open>\<^verbatim>\<open>logData\<close>, lines 346 to 366.\<close>

definition logData :: "tick \<Rightarrow> ast \<Rightarrow> fault + ast" where
  "logData i s =
     (let vibration_raw = \<bar>magnitude i - baseline_magnitude s\<bar>;
          vibration_raw = (if vibration_raw < 50 then 0 else vibration_raw);
          vibration_mss = (vibration_raw / 4096) * 9.81
      in case tests_at (currentTestIndex s) of
           Inl e \<Rightarrow> Inl e
         | Inr t \<Rightarrow> Inr (say [DataRow (now_row i - startTime s) (currentPosition (stepper s)) t
                                 vibration_mss] s))"

text \<open>\<^verbatim>\<open>startNextTest\<close>, lines 266 to 298.\<close>

definition startNextTest :: "tick \<Rightarrow> ast \<Rightarrow> fault + ast" where
  "startNextTest i s =
     (case tests_at (currentTestIndex s) of
        Inl e \<Rightarrow> Inl e
      | Inr t \<Rightarrow>
          (let s1 = say [TestBanner (currentTestIndex s + 1) t (currentPosition (stepper s))] s;
               s2 = s1\<lparr> targetPosition := homePosition s1 + testDistance \<rparr>;
               s3 = s2\<lparr> stepper := moveTo (targetPosition s2)
                          (setAcceleration 0 (setMaxSpeed (speed t) (stepper s2))) \<rparr>;
               s4 = startLogging i s3;
               s5 = s4\<lparr> testState := MOVING \<rparr>
           in Inr (say [MovingMsg] s5)))"

text \<open>\<^verbatim>\<open>startAutoTest\<close>, lines 250 to 264.\<close>

definition startAutoTest :: "tick \<Rightarrow> ast \<Rightarrow> fault + ast" where
  "startAutoTest i s =
     (if autoTestMode s then Inr (say [AlreadyRunning] s)
      else startNextTest i
             ((say [StartingAutoTest] s)\<lparr> autoTestMode := True, currentTestIndex := 0 \<rparr>))"

text \<open>\<^verbatim>\<open>stopAutoTest\<close>, lines 300 to 313.\<close>

definition stopAutoTest :: "tick \<Rightarrow> ast \<Rightarrow> ast" where
  "stopAutoTest i s =
     (if \<not> autoTestMode s then say [NoTestRunning] s
      else (let s1 = s\<lparr> autoTestMode := False, testState := IDLE \<rparr>;
                s2 = stopLogging s1;
                s3 = s2\<lparr> stepper := stop (overrun i) (stepper s2) \<rparr>
            in say [TestStopped] s3))"

text \<open>\<^verbatim>\<open>goHomeManual\<close>, lines 315 to 327.\<close>

definition goHomeManual :: "ast \<Rightarrow> ast" where
  "goHomeManual s =
     (let s1 = s\<lparr> stepper := moveTo (homePosition s)
                       (setAcceleration homeAccel (setMaxSpeed homeSpeed (stepper s))) \<rparr>;
          s2 = say [GoingHomeManually] s1;
          s3 = s2\<lparr> stepper := run_to_target (stepper s2) \<rparr>
      in say [ManualHomeReached] s3)"

text \<open>The command block of \<^verbatim>\<open>loop()\<close>, lines 123 to 147, for the byte \<open>cmd\<close> that was
  read; the rest of the receive buffer is discarded.\<close>

definition command :: "tick \<Rightarrow> char \<Rightarrow> ast \<Rightarrow> fault + ast" where
  "command i cmd s =
     (if cmd = CHR ''A'' \<or> cmd = CHR ''a'' then startAutoTest i s
      else if cmd = CHR ''S'' \<or> cmd = CHR ''s'' then Inr (stopAutoTest i s)
      else if cmd = CHR ''0''
      then Inr (say [HomeSet (currentPosition (stepper s))]
                 (s\<lparr> homePosition := currentPosition (stepper s) \<rparr>))
      else if cmd = CHR ''H'' \<or> cmd = CHR ''h''
      then (if \<not> autoTestMode s then Inr (goHomeManual s) else Inr s)
      else Inr s)"

text \<open>The state machine of \<^verbatim>\<open>loop()\<close>, lines 150 to 238, entered when
  \<^verbatim>\<open>autoTestMode\<close> holds.\<close>

definition moving :: "tick \<Rightarrow> ast \<Rightarrow> ast" where
  "moving i s =
     (let s1 = s\<lparr> stepper := run (due i) (stepper s) \<rparr>
      in if distanceToGo (stepper s1) = 0
         then (let s2 = stopLogging s1;
                   s3 = say [TargetReached (currentPosition (stepper s2))] s2;
                   s4 = s3\<lparr> testState := RETURNING \<rparr>;
                   s5 = s4\<lparr> stepper := moveTo (homePosition s4)
                              (setAcceleration homeAccel (setMaxSpeed homeSpeed (stepper s4))) \<rparr>
               in say [ReturningHome (currentPosition (stepper s5)) (homePosition s5)] s5)
         else s1)"

definition returning :: "tick \<Rightarrow> ast \<Rightarrow> fault + ast" where
  "returning i s =
     (let s1 = s\<lparr> stepper := run (due i) (stepper s) \<rparr>;
          s2 = (if now i - lastDebug s1 > 1000
                then (say [ReturningDebug (currentPosition (stepper s1)) (homePosition s1)
                             \<bar>distanceToGo (stepper s1)\<bar>] s1)\<lparr> lastDebug := now i \<rparr>
                else s1)
      in if distanceToGo (stepper s2) = 0
         then (let s3 = say [HomeReached (currentPosition (stepper s2))] s2;
                   s4 = s3\<lparr> currentTestIndex := currentTestIndex s3 + 1 \<rparr>
               in if currentTestIndex s4 \<ge> 8
                  then Inr (say [AllCompleted] (s4\<lparr> autoTestMode := False, testState := IDLE \<rparr>))
                  else startNextTest i (s4\<lparr> testState := WAITING \<rparr>))
         else Inr s2)"

definition state_machine :: "tick \<Rightarrow> ast \<Rightarrow> fault + ast" where
  "state_machine i s =
     (case testState s of
        MOVING \<Rightarrow> Inr (moving i s)
      | RETURNING \<Rightarrow> returning i s
      | WAITING \<Rightarrow> Inr s
      | IDLE \<Rightarrow> Inr s)"

text \<open>The logging block of \<^verbatim>\<open>loop()\<close>, lines 241 to 247.\<close>

definition logging :: "tick \<Rightarrow> ast \<Rightarrow> fault + ast" where
  "logging i s =
     (if isLogging s
      then (if now_log i - lastLogTime s \<ge> LOG_INTERVAL
            then logData i (s\<lparr> lastLogTime := now_log i \<rparr>)
            else Inr s)
      else Inr s)"

text \<open>One pass of \<^verbatim>\<open>loop()\<close>, lines 121 to 248.\<close>

definition loop :: "tick \<Rightarrow> ast \<Rightarrow> fault + ast" where
  "loop i s =
     (case (case rx i of [] \<Rightarrow> Inr s | cmd # rest \<Rightarrow> command i cmd s) of
        Inl e \<Rightarrow> Inl e
      | Inr s1 \<Rightarrow>
          (case (if autoTestMode s1 then state_machine i s1 else Inr s1) of
             Inl e \<Rightarrow> Inl e
           | Inr s2 \<Rightarrow> logging i s2))"

text \<open>Successive passes; a fault ends the run.\<close>

fun loops :: "tick list \<Rightarrow> ast \<Rightarrow> fault + ast" where
  "loops [] s = Inr s"
| "loops (i # is) s = (case loop i s of Inl e \<Rightarrow> Inl e | Inr s' \<Rightarrow> loops is s')"

text \<open>The states the sketch can be in between two passes of \<^verbatim>\<open>loop()\<close>.\<close>

inductive reachable :: "ast \<Rightarrow> bool" where
  start: "reachable (setup_ast b)"
| pass: "reachable s \<Longrightarrow> loop i s = Inr s' \<Longrightarrow> reachable s'"

subsection \<open>An invariant of the sketch\<close>

text \<open>Between two passes of \<^verbatim>\<open>loop()\<close>: while the sequence runs the cursor is a valid
  index; logging is on only while the motor moves out; \<^verbatim>\<open>autoTestMode\<close> holds exactly
  while the motor moves out or returns; the state \<^verbatim>\<open>WAITING\<close> never lasts to the end of
  a pass.\<close>

definition ast_inv :: "ast \<Rightarrow> bool" where
  "ast_inv s \<longleftrightarrow>
     (autoTestMode s \<longrightarrow> 0 \<le> currentTestIndex s \<and> currentTestIndex s < 8) \<and>
     (isLogging s \<longrightarrow> testState s = MOVING) \<and>
     (autoTestMode s \<longleftrightarrow> testState s = MOVING \<or> testState s = RETURNING) \<and>
     testState s \<noteq> WAITING"

lemma tests_at_ok: "0 \<le> i \<Longrightarrow> i < 8 \<Longrightarrow> tests_at i = Inr (tests ! nat i)"
  by (simp add: tests_at_def)

lemma setup_ast_inv: "ast_inv (setup_ast b)"
  by (simp add: ast_inv_def setup_ast_def)

lemma startNextTest_inv:
  assumes "0 \<le> currentTestIndex s" "currentTestIndex s < 8" "autoTestMode s"
  shows "\<exists>s'. startNextTest i s = Inr s' \<and> ast_inv s'"
  using assms
  by (simp add: startNextTest_def tests_at_ok Let_def say_def startLogging_def ast_inv_def)

lemma command_inv:
  assumes "ast_inv s"
  shows "\<exists>s'. command i cmd s = Inr s' \<and> ast_inv s'"
proof -
  have A: "\<exists>s'. startAutoTest i s = Inr s' \<and> ast_inv s'"
  proof (cases "autoTestMode s")
    case True
    then show ?thesis using assms by (simp add: startAutoTest_def say_def ast_inv_def)
  next
    case False
    then show ?thesis
      using startNextTest_inv [of "(say [StartingAutoTest] s)\<lparr> autoTestMode := True, currentTestIndex := 0 \<rparr>" i]
      by (simp add: startAutoTest_def say_def)
  qed
  have S: "ast_inv (stopAutoTest i s)"
    using assms by (simp add: stopAutoTest_def say_def stopLogging_def ast_inv_def Let_def)
  have Z: "ast_inv (say [HomeSet (currentPosition (stepper s))] (s\<lparr> homePosition := currentPosition (stepper s) \<rparr>))"
    using assms by (simp add: say_def ast_inv_def)
  have H: "ast_inv (goHomeManual s)"
    using assms by (simp add: goHomeManual_def say_def ast_inv_def Let_def)
  show ?thesis using A S Z H assms by (simp add: command_def)
qed

lemma moving_inv:
  assumes "ast_inv s" "testState s = MOVING"
  shows "ast_inv (moving i s)"
  using assms by (simp add: moving_def Let_def say_def stopLogging_def ast_inv_def)

lemma returning_inv:
  assumes "ast_inv s" "testState s = RETURNING"
  shows "\<exists>s'. returning i s = Inr s' \<and> ast_inv s'"
  using assms
  by (simp add: returning_def Let_def say_def ast_inv_def startNextTest_def tests_at_def
      startLogging_def)

lemma state_machine_inv:
  assumes "ast_inv s"
  shows "\<exists>s'. state_machine i s = Inr s' \<and> ast_inv s'"
  using assms moving_inv [of s i] returning_inv [of s i]
  by (cases "testState s") (simp_all add: state_machine_def)

lemma logging_inv:
  assumes "ast_inv s"
  shows "\<exists>s'. logging i s = Inr s' \<and> ast_inv s'"
proof (cases "isLogging s")
  case False
  then show ?thesis using assms by (simp add: logging_def)
next
  case True
  then have "0 \<le> currentTestIndex s \<and> currentTestIndex s < 8"
    using assms by (simp add: ast_inv_def)
  then show ?thesis using assms True
    by (simp add: logging_def logData_def tests_at_ok Let_def say_def ast_inv_def)
qed

lemma loop_inv:
  assumes "ast_inv s"
  shows "\<exists>s'. loop i s = Inr s' \<and> ast_inv s'"
proof -
  obtain s1 where s1: "(case rx i of [] \<Rightarrow> Inr s | cmd # rest \<Rightarrow> command i cmd s) = Inr s1" "ast_inv s1"
    using assms command_inv [OF assms, of i] by (cases "rx i") auto
  obtain s2 where s2: "(if autoTestMode s1 then state_machine i s1 else Inr s1) = Inr s2" "ast_inv s2"
    using s1(2) state_machine_inv [OF s1(2), of i] by (cases "autoTestMode s1") auto
  obtain s3 where s3: "logging i s2 = Inr s3" "ast_inv s3"
    using logging_inv [OF s2(2), of i] by auto
  show ?thesis using s1 s2 s3 by (simp add: loop_def)
qed

lemma reachable_loops: "reachable s \<Longrightarrow> loops is s = Inr s' \<Longrightarrow> reachable s'"
proof (induction "is" arbitrary: s)
  case Nil
  then show ?case by simp
next
  case (Cons i "is")
  then show ?case by (auto split: sum.splits intro: reachable.pass)
qed

lemma reachable_inv: "reachable s \<Longrightarrow> ast_inv s"
proof (induction rule: reachable.induct)
  case (start b)
  show ?case by (rule setup_ast_inv)
next
  case (pass s i s')
  then show ?case using loop_inv [of s i] by auto
qed


subsection \<open>Inputs used in the examples\<close>

text \<open>A pass in which the byte \<open>c\<close> has arrived, and a pass with no serial input at clock
  value \<open>t\<close>; \<open>d\<close> says whether a motor step is due.\<close>

definition key :: "char \<Rightarrow> bool \<Rightarrow> tick" where
  "key c d = \<lparr> rx = [c], due = d, overrun = 0, now = 0, now_start = 0, now_log = 0, now_row = 0,
     magnitude = 0 \<rparr>"

definition quiet :: "bool \<Rightarrow> 32 word \<Rightarrow> tick" where
  "quiet d t = \<lparr> rx = [], due = d, overrun = 0, now = t, now_start = t, now_log = t, now_row = t,
     magnitude = 0 \<rparr>"

lemma loop_key_A:
  "loop (key CHR ''A'' True) (setup_ast 0) = Inr X \<Longrightarrow> testState X = MOVING"
  by (auto simp add: loop_def key_def setup_ast_def command_def startAutoTest_def startNextTest_def
      tests_at_def tests_def say_def startLogging_def Let_def state_machine_def moving_def
      run_def distanceToGo_def moveTo_def setMaxSpeed_def setAcceleration_def testDistance_def
      logging_def LOG_INTERVAL_def)

subsection \<open>The phases of the automatic sequence\<close>

text \<open>The lines of the output that mark the progress of a sequence: the banner of a test
  (with the number of the test, its profile and the position it starts from), the arrival
  at home (with the position), and the end of the sequence.\<close>

fun is_milestone :: "line \<Rightarrow> bool" where
  "is_milestone (TestBanner k t p) = True"
| "is_milestone (HomeReached p) = True"
| "is_milestone AllCompleted = True"
| "is_milestone l = False"

definition milestones :: "line list \<Rightarrow> line list" where
  "milestones ls = filter is_milestone ls"

definition cycles :: "int \<Rightarrow> nat \<Rightarrow> line list" where
  "cycles P k = concat (map (\<lambda>j. [TestBanner (int j + 1) (tests ! j) P, HomeReached P]) [0..<k])"

definition in_moving :: "int \<Rightarrow> line list \<Rightarrow> nat \<Rightarrow> nat \<Rightarrow> ast \<Rightarrow> bool" where
  "in_moving P m0 c d s \<longleftrightarrow>
     autoTestMode s \<and> testState s = MOVING \<and> currentTestIndex s = int c \<and> c < 8 \<and>
     homePosition s = P \<and> targetPos (stepper s) = P + testDistance \<and>
     currentPosition (stepper s) = P + testDistance - int d \<and> 0 < d \<and> int d \<le> testDistance \<and>
     isLogging s \<and>
     milestones (out s) = m0 @ cycles P c @ [TestBanner (int c + 1) (tests ! c) P]"

definition in_returning :: "int \<Rightarrow> line list \<Rightarrow> nat \<Rightarrow> nat \<Rightarrow> ast \<Rightarrow> bool" where
  "in_returning P m0 c d s \<longleftrightarrow>
     autoTestMode s \<and> testState s = RETURNING \<and> currentTestIndex s = int c \<and> c < 8 \<and>
     homePosition s = P \<and> targetPos (stepper s) = P \<and>
     currentPosition (stepper s) = P + int d \<and> 0 < d \<and> int d \<le> testDistance \<and>
     \<not> isLogging s \<and>
     milestones (out s) = m0 @ cycles P c @ [TestBanner (int c + 1) (tests ! c) P]"

definition finished :: "int \<Rightarrow> line list \<Rightarrow> ast \<Rightarrow> bool" where
  "finished P m0 s \<longleftrightarrow>
     \<not> autoTestMode s \<and> testState s = IDLE \<and> currentTestIndex s = 8 \<and>
     currentPosition (stepper s) = P \<and> \<not> isLogging s \<and>
     milestones (out s) = m0 @ cycles P 8 @ [AllCompleted]"

lemma cycles_Suc:
  "cycles P (Suc k) = cycles P k @ [TestBanner (int k + 1) (tests ! k) P, HomeReached P]"
  by (simp add: cycles_def)

lemma milestones_append: "milestones (xs @ ys) = milestones xs @ milestones ys"
  by (simp add: milestones_def)

lemma moving_wait:
  assumes "in_moving P m0 c d s" "rx i = []" "\<not> due i"
  shows "\<exists>s'. loop i s = Inr s' \<and> in_moving P m0 c d s'"
  using assms
  by (simp add: in_moving_def loop_def state_machine_def moving_def run_def distanceToGo_def
      logging_def logData_def tests_at_def Let_def say_def milestones_append milestones_def)

lemma moving_step:
  assumes "in_moving P m0 c (Suc d) s" "rx i = []" "due i" "0 < d"
  shows "\<exists>s'. loop i s = Inr s' \<and> in_moving P m0 c d s'"
  using assms
  by (simp add: in_moving_def loop_def state_machine_def moving_def run_def distanceToGo_def
      logging_def logData_def tests_at_def Let_def say_def milestones_append milestones_def)

lemma moving_arrive:
  assumes "in_moving P m0 c (Suc 0) s" "rx i = []" "due i"
  shows "\<exists>s'. loop i s = Inr s' \<and> in_returning P m0 c (nat testDistance) s'"
  using assms
  by (simp add: in_moving_def in_returning_def loop_def state_machine_def moving_def run_def
      distanceToGo_def stopLogging_def moveTo_def setMaxSpeed_def setAcceleration_def
      logging_def Let_def say_def milestones_append milestones_def testDistance_def)


lemma nat_int_Suc: "nat (int c + 1) = Suc c"
  by simp

lemma cycles_8: "cycles P 8 = cycles P 7 @ [TestBanner 8 (tests ! 7) P, HomeReached P]"
  using cycles_Suc [of P 7] by simp

lemma returning_wait:
  assumes "in_returning P m0 c d s" "rx i = []" "\<not> due i"
  shows "\<exists>s'. loop i s = Inr s' \<and> in_returning P m0 c d s'"
  using assms
  by (simp add: in_returning_def loop_def state_machine_def returning_def run_def distanceToGo_def
      logging_def Let_def say_def milestones_append milestones_def)

lemma returning_step:
  assumes "in_returning P m0 c (Suc d) s" "rx i = []" "due i" "0 < d"
  shows "\<exists>s'. loop i s = Inr s' \<and> in_returning P m0 c d s'"
  using assms
  by (simp add: in_returning_def loop_def state_machine_def returning_def run_def distanceToGo_def
      logging_def Let_def say_def milestones_append milestones_def)

lemma returning_next:
  assumes "in_returning P m0 c (Suc 0) s" "rx i = []" "due i" "Suc c < 8"
  shows "\<exists>s'. loop i s = Inr s' \<and> in_moving P m0 (Suc c) (nat testDistance) s'"
  using assms
  by (simp add: in_returning_def in_moving_def loop_def state_machine_def returning_def run_def
      distanceToGo_def startNextTest_def tests_at_def startLogging_def moveTo_def setMaxSpeed_def
      setAcceleration_def logging_def logData_def LOG_INTERVAL_def Let_def say_def
      milestones_append milestones_def testDistance_def cycles_Suc nat_int_Suc)

lemma returning_last:
  assumes "in_returning P m0 c (Suc 0) s" "rx i = []" "due i" "Suc c = 8"
  shows "\<exists>s'. loop i s = Inr s' \<and> finished P m0 s'"
  using assms
  by (simp add: in_returning_def finished_def loop_def state_machine_def returning_def run_def
      distanceToGo_def logging_def Let_def say_def milestones_append
      milestones_def cycles_8)

lemma finished_stays:
  assumes "finished P m0 s" "rx i = []"
  shows "loop i s = Inr s"
  using assms by (simp add: finished_def loop_def logging_def)

text \<open>The number of motor steps that are still to be made until the sequence is over:
  each of the eight tests moves out by \<^verbatim>\<open>testDistance\<close> and back.\<close>

definition sequence_at :: "int \<Rightarrow> line list \<Rightarrow> nat \<Rightarrow> ast \<Rightarrow> bool" where
  "sequence_at P m0 n s \<longleftrightarrow>
     (\<exists>c d. in_moving P m0 c d s \<and> n = d + nat testDistance + (7 - c) * (2 * nat testDistance)) \<or>
     (\<exists>c d. in_returning P m0 c d s \<and> n = d + (7 - c) * (2 * nat testDistance)) \<or>
     (finished P m0 s \<and> n = 0)"

lemma seq_mv:
  "in_moving P m0 c d s \<Longrightarrow> n = d + nat testDistance + (7 - c) * (2 * nat testDistance)
     \<Longrightarrow> sequence_at P m0 n s"
  unfolding sequence_at_def by blast

lemma seq_rt:
  "in_returning P m0 c d s \<Longrightarrow> n = d + (7 - c) * (2 * nat testDistance)
     \<Longrightarrow> sequence_at P m0 n s"
  unfolding sequence_at_def by blast

lemma seq_fin: "finished P m0 s \<Longrightarrow> sequence_at P m0 0 s"
  unfolding sequence_at_def by blast

lemma sequence_step:
  assumes "sequence_at P m0 n s" "rx i = []"
  shows "\<exists>s'. loop i s = Inr s' \<and> sequence_at P m0 (if due i then n - 1 else n) s'"
proof -
  consider (mv) c d where "in_moving P m0 c d s" "n = d + nat testDistance + (7 - c) * (2 * nat testDistance)"
    | (rt) c d where "in_returning P m0 c d s" "n = d + (7 - c) * (2 * nat testDistance)"
    | (fin) "finished P m0 s" "n = 0"
    using assms(1) unfolding sequence_at_def by blast
  then show ?thesis
  proof cases
    case mv
    have dpos: "0 < d" and c8: "c < 8" using mv(1) by (simp_all add: in_moving_def)
    show ?thesis
    proof (cases "due i")
      case False
      then obtain s' where l: "loop i s = Inr s'" and p: "in_moving P m0 c d s'"
        using moving_wait [OF mv(1) assms(2)] by blast
      have "sequence_at P m0 (if due i then n - 1 else n) s'"
        using p by (rule seq_mv) (simp add: False mv(2))
      with l show ?thesis by blast
    next
      case True
      obtain d' where d: "d = Suc d'" using dpos by (cases d) simp_all
      show ?thesis
      proof (cases "0 < d'")
        case True
        obtain s' where l: "loop i s = Inr s'" and p: "in_moving P m0 c d' s'"
          using moving_step [of P m0 c d' s i] mv(1) assms(2) \<open>due i\<close> True by (auto simp: d)
        have "sequence_at P m0 (if due i then n - 1 else n) s'"
          using p by (rule seq_mv) (simp add: \<open>due i\<close> mv(2) d)
        with l show ?thesis by blast
      next
        case False
        obtain s' where l: "loop i s = Inr s'" and p: "in_returning P m0 c (nat testDistance) s'"
          using moving_arrive [of P m0 c s i] mv(1) assms(2) \<open>due i\<close> False by (auto simp: d)
        have "sequence_at P m0 (if due i then n - 1 else n) s'"
          using p by (rule seq_rt) (use False in \<open>simp add: \<open>due i\<close> mv(2) d\<close>)
        with l show ?thesis by blast
      qed
    qed
  next
    case rt
    have dpos: "0 < d" and c8: "c < 8" using rt(1) by (simp_all add: in_returning_def)
    show ?thesis
    proof (cases "due i")
      case False
      then obtain s' where l: "loop i s = Inr s'" and p: "in_returning P m0 c d s'"
        using returning_wait [OF rt(1) assms(2)] by blast
      have "sequence_at P m0 (if due i then n - 1 else n) s'"
        using p by (rule seq_rt) (simp add: False rt(2))
      with l show ?thesis by blast
    next
      case True
      obtain d' where d: "d = Suc d'" using dpos by (cases d) simp_all
      show ?thesis
      proof (cases "0 < d'")
        case True
        obtain s' where l: "loop i s = Inr s'" and p: "in_returning P m0 c d' s'"
          using returning_step [of P m0 c d' s i] rt(1) assms(2) \<open>due i\<close> True by (auto simp: d)
        have "sequence_at P m0 (if due i then n - 1 else n) s'"
          using p by (rule seq_rt) (simp add: \<open>due i\<close> rt(2) d)
        with l show ?thesis by blast
      next
        case False
        then have d0: "d' = 0" by simp
        show ?thesis
        proof (cases "Suc c < 8")
          case True
          obtain s' where l: "loop i s = Inr s'"
            and p: "in_moving P m0 (Suc c) (nat testDistance) s'"
            using returning_next [of P m0 c s i] rt(1) assms(2) \<open>due i\<close> True by (auto simp: d d0)
          have "sequence_at P m0 (if due i then n - 1 else n) s'"
            using p by (rule seq_mv) (use True in \<open>simp add: \<open>due i\<close> rt(2) d d0 testDistance_def\<close>)
          with l show ?thesis by blast
        next
          case False
          then have c7: "Suc c = 8" using c8 by simp
          obtain s' where l: "loop i s = Inr s'" and p: "finished P m0 s'"
            using returning_last [of P m0 c s i] rt(1) assms(2) \<open>due i\<close> c7 by (auto simp: d d0)
          have "n - 1 = 0" using c7 rt(2) by (simp add: d d0)
          then have "sequence_at P m0 (if due i then n - 1 else n) s'"
            using seq_fin [OF p] \<open>due i\<close> by simp
          with l show ?thesis by blast
        qed
      qed
    qed
  next
    case fin
    have "loop i s = Inr s" using fin(1) assms(2) by (rule finished_stays)
    moreover have "sequence_at P m0 (if due i then n - 1 else n) s"
      using seq_fin [OF fin(1)] fin(2) by simp
    ultimately show ?thesis by blast
  qed
qed

lemma sequence_steps:
  assumes "sequence_at P m0 n s" "\<forall>i \<in> set is. rx i = []"
  shows "\<exists>s'. loops is s = Inr s' \<and> sequence_at P m0 (n - length (filter due is)) s'"
  using assms
proof (induction "is" arbitrary: n s)
  case Nil
  then show ?case by simp
next
  case (Cons i "is")
  obtain s1 where s1: "loop i s = Inr s1" "sequence_at P m0 (if due i then n - 1 else n) s1"
    using sequence_step [of P m0 n s i] Cons.prems by auto
  obtain s' where "loops is s1 = Inr s'"
    "sequence_at P m0 ((if due i then n - 1 else n) - length (filter due is)) s'"
    using Cons.IH [OF s1(2)] Cons.prems(2) by auto
  then show ?case using s1(1) by (cases "due i") (auto simp: diff_diff_eq)
qed

lemma state_machine_rx: "state_machine (i\<lparr> rx := r \<rparr>) s = state_machine i s"
  by (cases "testState s")
    (simp_all add: state_machine_def moving_def returning_def startNextTest_def startLogging_def
      Let_def say_def split: sum.splits)

lemma logging_rx: "logging (i\<lparr> rx := r \<rparr>) s = logging i s"
  by (simp add: logging_def logData_def Let_def split: sum.splits)

lemma loop_after_command:
  "rx i = c # rest \<Longrightarrow> command i c s = Inr s1 \<Longrightarrow> loop i s = loop (i\<lparr> rx := [] \<rparr>) s1"
  by (simp add: loop_def state_machine_rx logging_rx split: sum.splits)

lemma startAutoTest_enters:
  assumes "\<not> autoTestMode s" "currentPosition (stepper s) = P" "homePosition s = P"
    "c = CHR ''A'' \<or> c = CHR ''a''"
  shows "\<exists>s1. command i c s = Inr s1 \<and> in_moving P (milestones (out s)) 0 (nat testDistance) s1"
  using assms
  by (auto simp add: command_def startAutoTest_def startNextTest_def tests_at_def startLogging_def
      say_def Let_def moveTo_def setMaxSpeed_def setAcceleration_def in_moving_def
      milestones_append cycles_def testDistance_def milestones_def)


subsection \<open>The claims about the automatic sequence\<close>

text \<open>
  Claim C1. Let the sketch be outside a sequence with the motor at its home position \<open>P\<close>.
  A pass of \<^verbatim>\<open>loop()\<close> reads the command \<^verbatim>\<open>A\<close>; the passes that follow find no serial
  input (so no stop command either), and the motor makes, over all these passes, at least
  the \<open>16 * testDistance\<close> steps that eight tests need. Then no pass faults, and the run
  ends with \<^verbatim>\<open>autoTestMode\<close> false, \<^verbatim>\<open>testState\<close> \<^verbatim>\<open>IDLE\<close>, the cursor at 8 and the motor
  at \<open>P\<close>. The progress lines of the output are, in this order and nothing else: for each
  of the profiles 0 to 7 of the table, the banner of the test (number, profile, start
  position \<open>P\<close>) followed by the arrival at home at \<open>P\<close>; then the end of the sequence.
  The banner prints the cursor plus one, so the cursor moved on once after each return.
\<close>

theorem auto_sequence_visits_all_profiles:
  assumes idle: "\<not> autoTestMode s0"
    and home: "currentPosition (stepper s0) = P" "homePosition s0 = P"
    and start: "rx a = c # rest" "c = CHR ''A'' \<or> c = CHR ''a''"
    and quiet: "\<forall>i \<in> set is. rx i = []"
    and steps: "nat (16 * testDistance) \<le> length (filter due (a # is))"
  shows "\<exists>s. loops (a # is) s0 = Inr s \<and> \<not> autoTestMode s \<and> testState s = IDLE \<and>
           currentPosition (stepper s) = P \<and> currentTestIndex s = 8 \<and> \<not> isLogging s \<and>
           milestones (out s) = milestones (out s0) @ cycles P 8 @ [AllCompleted]"
proof -
  let ?m0 = "milestones (out s0)"
  let ?a = "a\<lparr> rx := [] \<rparr>"
  obtain s1 where s1: "command a c s0 = Inr s1" "in_moving P ?m0 0 (nat testDistance) s1"
    using startAutoTest_enters [OF idle home start(2)] by blast
  have first: "loop a s0 = loop ?a s1"
    using start(1) s1(1) by (rule loop_after_command)
  have "sequence_at P ?m0 (nat (16 * testDistance)) s1"
    using s1(2) by (rule seq_mv) (simp add: testDistance_def)
  moreover have "\<forall>i \<in> set (?a # is). rx i = []" using quiet by simp
  ultimately obtain s where run: "loops (?a # is) s1 = Inr s"
    and at: "sequence_at P ?m0 (nat (16 * testDistance) - length (filter due (?a # is))) s"
    using sequence_steps by blast
  have same: "length (filter due (?a # is)) = length (filter due (a # is))" by simp
  have zero: "nat (16 * testDistance) - length (filter due (?a # is)) = 0"
    using steps unfolding same by simp
  have fin: "finished P ?m0 s"
    using at unfolding zero sequence_at_def in_moving_def in_returning_def by auto
  have "loops (a # is) s0 = Inr s" using run first by simp
  then show ?thesis using fin by (auto simp: finished_def)
qed

text \<open>The theorem at the state after \<^verbatim>\<open>setup()\<close>, with a step due in every pass.\<close>

theorem auto_sequence_visits_all_profiles_witness:
  "\<not> autoTestMode (setup_ast 0) \<and> currentPosition (stepper (setup_ast 0)) = 0 \<and>
   homePosition (setup_ast 0) = 0 \<and> rx (key CHR ''A'' True) = [CHR ''A''] \<and>
   nat (16 * testDistance) \<le> length (filter due (key CHR ''A'' True # replicate 896000 (quiet True 0))) \<and>
   (\<exists>s. loops (key CHR ''A'' True # replicate 896000 (quiet True 0)) (setup_ast 0) = Inr s \<and>
        \<not> autoTestMode s \<and> testState s = IDLE \<and> currentPosition (stepper s) = 0 \<and>
        currentTestIndex s = 8 \<and> milestones (out s) = cycles 0 8 @ [AllCompleted])"
proof -
  have h1: "\<not> autoTestMode (setup_ast 0)" "currentPosition (stepper (setup_ast 0)) = 0"
    "homePosition (setup_ast 0) = 0" "out (setup_ast 0) = []"
    by (simp_all add: setup_ast_def)
  have h2: "rx (key CHR ''A'' True) = [CHR ''A'']" by (simp add: key_def)
  have h3: "\<forall>i \<in> set (replicate 896000 (quiet True 0)). rx i = []" by (simp add: quiet_def)
  have h4: "nat (16 * testDistance) \<le> length (filter due (key CHR ''A'' True # replicate 896000 (quiet True 0)))"
    by (simp add: filter_replicate quiet_def testDistance_def)
  obtain s where s: "loops (key CHR ''A'' True # replicate 896000 (quiet True 0)) (setup_ast 0) = Inr s"
      "\<not> autoTestMode s" "testState s = IDLE" "currentPosition (stepper s) = 0"
      "currentTestIndex s = 8"
      and m: "milestones (out s) = milestones (out (setup_ast 0)) @ cycles 0 8 @ [AllCompleted]"
    using auto_sequence_visits_all_profiles [OF h1(1) h1(2) h1(3) h2 _ h3 h4] by blast
  have "milestones (out s) = cycles 0 8 @ [AllCompleted]"
    using m by (simp add: h1(4) milestones_def)
  then show ?thesis using h1(1-3) h2 h4 s by blast
qed



text \<open>
  Claim C3, as amended. In every state the sketch can reach in which \<^verbatim>\<open>testState\<close> is not
  \<^verbatim>\<open>IDLE\<close>, the command block, given any byte other than \<^verbatim>\<open>S\<close> and \<^verbatim>\<open>s\<close>, ends without a
  fault and leaves \<^verbatim>\<open>autoTestMode\<close> and \<^verbatim>\<open>testState\<close> as they were. \<^verbatim>\<open>A\<close> and \<^verbatim>\<open>a\<close> are
  rejected with the warning and no other change; \<^verbatim>\<open>0\<close> is carried out: it sets
  \<^verbatim>\<open>homePosition\<close> to the current position and reports it; every other byte, \<^verbatim>\<open>H\<close> and
  \<^verbatim>\<open>h\<close> included, changes nothing at all.
\<close>

theorem busy_commands:
  assumes "reachable s" and "testState s \<noteq> IDLE"
    and "cmd \<noteq> CHR ''S''" and "cmd \<noteq> CHR ''s''"
  shows "\<exists>s'. command i cmd s = Inr s' \<and> autoTestMode s' = autoTestMode s \<and>
           testState s' = testState s \<and>
           (if cmd = CHR ''0''
            then s' = say [HomeSet (currentPosition (stepper s))]
                        (s\<lparr> homePosition := currentPosition (stepper s) \<rparr>)
            else if cmd = CHR ''A'' \<or> cmd = CHR ''a'' then s' = say [AlreadyRunning] s
            else s' = s)"
proof -
  have "ast_inv s" using assms(1) by (rule reachable_inv)
  then have "autoTestMode s" using assms(2) by (cases "testState s") (simp_all add: ast_inv_def)
  then show ?thesis using assms(3,4)
    by (simp add: command_def startAutoTest_def say_def)
qed


text \<open>The theorem at the state reached by the command \<^verbatim>\<open>A\<close>, for the byte \<^verbatim>\<open>H\<close>.\<close>

theorem busy_commands_witness:
  "\<exists>s. loop (key CHR ''A'' True) (setup_ast 0) = Inr s \<and> reachable s \<and> testState s = MOVING \<and>
       command (key CHR ''H'' False) CHR ''H'' s = Inr s"
proof -
  obtain s where s: "loop (key CHR ''A'' True) (setup_ast 0) = Inr s"
    using loop_inv [OF setup_ast_inv] by blast
  have r: "reachable s" using reachable.start s by (rule reachable.pass)
  have m: "testState s = MOVING" using s by (rule loop_key_A)
  then have b: "testState s \<noteq> IDLE" by simp
  have "\<exists>s'. command (key CHR ''H'' False) CHR ''H'' s = Inr s' \<and> s' = s"
    using busy_commands [OF r b, of "CHR ''H''" "key CHR ''H'' False"] by simp
  then show ?thesis using s r m by auto
qed

text \<open>
  Claim C3 as stated fails for the command \<^verbatim>\<open>0\<close>, which is neither dropped nor rejected
  while a test move is in progress. After \<^verbatim>\<open>setup()\<close>, the pass that reads \<^verbatim>\<open>A\<close> (with a
  step due) leaves the sketch in \<^verbatim>\<open>MOVING\<close> at position 1 with home 0; the next pass reads
  \<^verbatim>\<open>0\<close> and the home position becomes 1.
\<close>

theorem busy_commands_counterexample:
  "map_sum id testState (loops [key CHR ''A'' True] (setup_ast 0)) = Inr MOVING \<and>
   map_sum id homePosition (loops [key CHR ''A'' True] (setup_ast 0)) = Inr 0 \<and>
   map_sum id homePosition (loops [key CHR ''A'' True, key CHR ''0'' False] (setup_ast 0)) = Inr 1"
  by (simp add: loop_def key_def setup_ast_def command_def startAutoTest_def startNextTest_def
      tests_at_def tests_def say_def startLogging_def Let_def state_machine_def moving_def
      run_def distanceToGo_def moveTo_def setMaxSpeed_def setAcceleration_def testDistance_def
      logging_def LOG_INTERVAL_def)

text \<open>
  Claim C10. In every state the sketch can reach, and for every input, a pass of
  \<^verbatim>\<open>loop()\<close> ends without the fault of reading \<^verbatim>\<open>tests\<close> outside its eight entries, at
  any of the places where it is read (\<^verbatim>\<open>startNextTest\<close> and twice in \<^verbatim>\<open>logData\<close>). Logging
  is on only while the sequence runs, and while the sequence runs the cursor is at least 0
  and less than 8.
\<close>

theorem profile_index_in_bounds:
  assumes "reachable s"
  shows "(\<exists>s'. loop i s = Inr s') \<and> (isLogging s \<longrightarrow> autoTestMode s) \<and>
         (autoTestMode s \<longrightarrow> 0 \<le> currentTestIndex s \<and> currentTestIndex s < 8)"
proof -
  have inv: "ast_inv s" using assms by (rule reachable_inv)
  then obtain s' where "loop i s = Inr s'" using loop_inv by blast
  then show ?thesis using inv by (auto simp: ast_inv_def)
qed

text \<open>The theorem at the state reached by the command \<^verbatim>\<open>A\<close>.\<close>

theorem profile_index_in_bounds_witness:
  "\<exists>s. loop (key CHR ''A'' True) (setup_ast 0) = Inr s \<and> reachable s \<and>
       (\<exists>s'. loop (quiet True 20) s = Inr s') \<and> 0 \<le> currentTestIndex s \<and> currentTestIndex s < 8"
proof -
  obtain s where s: "loop (key CHR ''A'' True) (setup_ast 0) = Inr s"
    using loop_inv [OF setup_ast_inv] by blast
  have r: "reachable s" using reachable.start s by (rule reachable.pass)
  have "testState s = MOVING" using s by (rule loop_key_A)
  then have "autoTestMode s" using reachable_inv [OF r] by (simp add: ast_inv_def)
  then show ?thesis
    using profile_index_in_bounds [OF r, of "quiet True 20"] s r by blast
qed

subsection \<open>The logging sessions in the output\<close>

text \<open>
  The output is read from its beginning by an automaton that keeps: whether a session is
  open, the positions of the data rows of the open session, and the position lists of the
  sessions already closed. \<^verbatim>\<open>DATA_START\<close> is accepted only when no session is open,
  \<^verbatim>\<open>DATA_END\<close> and a data row only when one is; all other lines are skipped. The automaton
  rejects (\<open>None\<close>) an output with a row outside a session, a second start marker inside a
  session, or an end marker without a session.
\<close>

type_synonym stream = "bool \<times> int list \<times> int list list"

fun stream_step :: "stream option \<Rightarrow> line \<Rightarrow> stream option" where
  "stream_step (Some (opn, ps, dn)) DATA_START = (if opn then None else Some (True, [], dn))"
| "stream_step (Some (opn, ps, dn)) DATA_END = (if opn then Some (False, [], dn @ [ps]) else None)"
| "stream_step (Some (opn, ps, dn)) (DataRow t p pr v) =
     (if opn then Some (True, ps @ [p], dn) else None)"
| "stream_step st l = st"

definition scan :: "line list \<Rightarrow> stream option" where
  "scan ls = foldl stream_step (Some (False, [], [])) ls"

definition toward :: "stepper \<Rightarrow> int list \<Rightarrow> bool" where
  "toward st ps \<longleftrightarrow>
     (currentPosition st \<le> targetPos st \<and> sorted ps \<and> (\<forall>p \<in> set ps. p \<le> currentPosition st)) \<or>
     (targetPos st \<le> currentPosition st \<and> sorted (rev ps) \<and> (\<forall>p \<in> set ps. currentPosition st \<le> p))"

definition stream_inv :: "ast \<Rightarrow> bool" where
  "stream_inv s \<longleftrightarrow>
     (case scan (out s) of
        None \<Rightarrow> False
      | Some (opn, ps, dn) \<Rightarrow>
          opn = isLogging s \<and> (\<forall>q \<in> set dn. sorted q \<or> sorted (rev q)) \<and>
          (if isLogging s then toward (stepper s) ps else ps = []))"

lemma scan_snoc: "scan (ls @ [l]) = stream_step (scan ls) l"
  by (simp add: scan_def)

lemma scan_app2: "scan (ls @ [l1, l2]) = stream_step (stream_step (scan ls) l1) l2"
  by (simp add: scan_def)

lemma toward_mono: "toward st ps \<Longrightarrow> sorted ps \<or> sorted (rev ps)"
  by (auto simp: toward_def)

lemma toward_run: "toward st ps \<Longrightarrow> toward (run d st) ps"
  by (fastforce simp: toward_def run_def distanceToGo_def)


lemma toward_Nil: "toward st []"
  by (auto simp: toward_def)






lemma stopLogging_stream: "stream_inv s \<Longrightarrow> stream_inv (stopLogging s)"
  by (auto simp: stream_inv_def stopLogging_def say_def scan_snoc dest: toward_mono
      split: option.splits)

lemma startLogging_stream:
  "stream_inv s \<Longrightarrow> \<not> isLogging s \<Longrightarrow> stream_inv (startLogging i s)"
  by (auto simp: stream_inv_def startLogging_def say_def scan_snoc toward_Nil
      split: option.splits)



lemma run_stream: "stream_inv s \<Longrightarrow> stream_inv (s\<lparr> stepper := run d (stepper s) \<rparr>)"
  by (auto simp: stream_inv_def toward_run split: option.splits)

















section \<open>Surface Tension Tester v5.0: the mode-based tester\<close>

text \<open>
  The sketch of lines 360 to 1162 of \<^verbatim>\<open>MPU9250_Vibration_Monitor.ino\<close>. Names that the
  sketches above already use carry the suffix \<open>_v5\<close>.

  The load cell library (HX711\_ADC) and the EEPROM are hardware services. Of the load
  cell the model keeps the calibration factor handed to \<^verbatim>\<open>setCalFactor\<close>; its readings and
  its tare status are inputs. The sketch copies the four bytes of the \<^verbatim>\<open>float\<close>
  \<^verbatim>\<open>calibrationFactor\<close> to and from the EEPROM cells at \<^verbatim>\<open>EEPROM_CAL_ADDR\<close>; the model
  keeps, for each base address, the \<^verbatim>\<open>float\<close> whose bytes are stored there.
\<close>

definition SAMPLE_SIZE_v5 :: nat where
  "SAMPLE_SIZE_v5 = 5"


definition DEFAULT_CAL_FACTOR :: real where
  "DEFAULT_CAL_FACTOR = 16800"

definition testDistance_v5 :: int where
  "testDistance_v5 = 24000"


definition tests_v5 :: "SpeedTest list" where
  "tests_v5 =
    [\<lparr> name = ''ULTRA_FAST'', speed = 1600, speed_mms = 1 \<rparr>,
     \<lparr> name = ''FAST_UP'', speed = 1200, speed_mms = 0.75 \<rparr>,
     \<lparr> name = ''FAST_DOWN'', speed = 400, speed_mms = 0.25 \<rparr>,
     \<lparr> name = ''MEASURE_F'', speed = 50, speed_mms = 0.03125 \<rparr>,
     \<lparr> name = ''MEASURE_M'', speed = 20, speed_mms = 0.0125 \<rparr>,
     \<lparr> name = ''MEASURE_U'', speed = 10, speed_mms = 0.00625 \<rparr>,
     \<lparr> name = ''MEASURE_X'', speed = 5, speed_mms = 0.003125 \<rparr>,
     \<lparr> name = ''MEASURE_Z'', speed = 2, speed_mms = 0.00125 \<rparr>]"

definition tests_v5_at :: "int \<Rightarrow> fault + SpeedTest" where
  "tests_v5_at i = (if 0 \<le> i \<and> i < 8 then Inr (tests_v5 ! nat i) else Inl IndexOutOfBounds)"




datatype SystemMode =
  MODE_IDLE | MODE_LIVE_MONITOR | MODE_NORMAL_TEST | MODE_AUTO_SEQUENCE | MODE_CALIBRATION

datatype MotorState = MOTOR_IDLE | MOTOR_MOVING_DOWN | MOTOR_RETURNING_HOME

text \<open>The lines written to the serial port; the multi-line banners and the menu are one
  constructor each.\<close>

datatype line_v5 =
    InvalidCalibration real
  | SavedToEEPROM int
  | LoadedCalibration real
  | HX711Timeout
  | SystemReady
  | MainMenu
  | LiveForce real
  | LiveMonitorBanner
  | ExitingLiveMonitor
  | InvalidTestIndex
  | NormalTestBanner SpeedTest
  | MovingDown
  | ExitingNormalTest
  | AutoSequenceComplete
  | AutoSequenceBanner
  | AutoTestBanner int SpeedTest
  | ContactDetected
  | OverloadDetected
  | ReturningToHome
  | HomeReached_v5
  | EmergencyStopActive
  | SystemReset
  | ReturningToIdle
  | TaringScale
  | HomePositionSet
  | GoingHome
  | TestStopped_v5
  | TareComplete
  | START_STREAM
  | END_STREAM
  | StreamPoint "32 word" int SpeedTest real
  | CalibrationBanner
  | TareTimeout
  | TareFailed
  | InvalidMass
  | MassEntered real
  | NewCalibrationFactor real
  | CalibrationSaved
  | ExitingCalibration

record v5 =
  readings_v5 :: "real list"
  readIndex_v5 :: nat
  total_v5 :: real
  calibrationFactor :: real
  lastSampledPosition :: int
  currentMode :: SystemMode
  motorState :: MotorState
  homePosition_v5 :: int
  targetPosition_v5 :: int
  currentTestIndex_v5 :: int
  nextAutoTestIndex :: int
  emergencyStop :: bool
  lastForce :: real
  contactDetected :: bool
  isStreaming :: bool
  startTime_v5 :: "32 word"
  lastMonitorDisplayTime :: "32 word"
  stepper_v5 :: stepper
  calFactor :: real
  eeprom :: "int \<Rightarrow> real"
  out_v5 :: "line_v5 list"

text \<open>What the operator and the load cell do during the blocking calibration workflow:
  whether \<^verbatim>\<open>T\<close> arrives within the first time limit, what \<^verbatim>\<open>getTareStatus()\<close> returns at
  line 1069, the number typed for the reference mass (\<open>None\<close> when the time limit passes
  first), and the factor computed by \<^verbatim>\<open>getNewCalibration\<close>.\<close>

record cal_input =
  tare_requested :: bool
  tare_status :: bool
  mass_typed :: "real option"
  new_factor :: real

text \<open>The inputs of one pass of \<^verbatim>\<open>loop()\<close>: the receive buffer as the command handler
  finds it and as the emergency handler finds it afterwards, whether a motor step is due,
  the deceleration distance of \<^verbatim>\<open>stop()\<close>, the clock as the command handler and as the
  mode handler read it, the raw load cell reading, the tare status read at the end of the
  pass, and the calibration inputs.\<close>

record tick_v5 =
  rx_v5 :: string
  rx_estop :: string
  due_v5 :: bool
  overrun_v5 :: int
  now_cmd :: "32 word"
  now_v5 :: "32 word"
  raw :: real
  tare_done :: bool
  cal :: cal_input

definition say_v5 :: "line_v5 list \<Rightarrow> v5 \<Rightarrow> v5" where
  "say_v5 ls s = s\<lparr> out_v5 := out_v5 s @ ls \<rparr>"


text \<open>\<^verbatim>\<open>resetFilters\<close>, lines 413 to 417.\<close>

definition resetFilters_v5 :: "v5 \<Rightarrow> v5" where
  "resetFilters_v5 s = s\<lparr> readings_v5 := replicate SAMPLE_SIZE_v5 0, total_v5 := 0,
     readIndex_v5 := 0 \<rparr>"



text \<open>The globals as their initialisers leave them (lines 394 to 514), over the EEPROM
  contents \<open>ee\<close> found at power-up.\<close>

definition power_up :: "(int \<Rightarrow> real) \<Rightarrow> v5" where
  "power_up ee = \<lparr> readings_v5 = replicate SAMPLE_SIZE_v5 0, readIndex_v5 = 0, total_v5 = 0,
     calibrationFactor = DEFAULT_CAL_FACTOR, lastSampledPosition = 0, currentMode = MODE_IDLE,
     motorState = MOTOR_IDLE, homePosition_v5 = 0, targetPosition_v5 = 0,
     currentTestIndex_v5 = - 1, nextAutoTestIndex = - 1, emergencyStop = False, lastForce = 0,
     contactDetected = False, isStreaming = False, startTime_v5 = 0,
     lastMonitorDisplayTime = 0,
     stepper_v5 = \<lparr> currentPosition = 0, targetPos = 0, maxSpeed = 1, acceleration = 1,
       speed_set = 0 \<rparr>,
     calFactor = 1, eeprom = ee, out_v5 = [] \<rparr>"


text \<open>The streaming functions, lines 995 to 1022.\<close>

definition startStreaming :: "32 word \<Rightarrow> v5 \<Rightarrow> v5" where
  "startStreaming t s =
     say_v5 [START_STREAM]
       (s\<lparr> isStreaming := True, startTime_v5 := t,
           lastSampledPosition := currentPosition (stepper_v5 s) \<rparr>)"

definition stopStreaming :: "v5 \<Rightarrow> v5" where
  "stopStreaming s =
     (if \<not> isStreaming s then s else say_v5 [END_STREAM] (s\<lparr> isStreaming := False \<rparr>))"

definition streamDataPoint :: "tick_v5 \<Rightarrow> real \<Rightarrow> int \<Rightarrow> v5 \<Rightarrow> fault + v5" where
  "streamDataPoint i force_N motorSteps s =
     (case tests_v5_at (currentTestIndex_v5 s) of
        Inl e \<Rightarrow> Inl e
      | Inr t \<Rightarrow> Inr (say_v5 [StreamPoint (now_v5 i - startTime_v5 s) motorSteps t force_N] s))"


definition enterLiveMonitorMode :: "tick_v5 \<Rightarrow> v5 \<Rightarrow> v5" where
  "enterLiveMonitorMode i s =
     (say_v5 [LiveMonitorBanner]
        (s\<lparr> currentMode := MODE_LIVE_MONITOR, motorState := MOTOR_IDLE, isStreaming := False \<rparr>))
       \<lparr> lastMonitorDisplayTime := now_cmd i \<rparr>"

definition exitLiveMonitorMode :: "v5 \<Rightarrow> v5" where
  "exitLiveMonitorMode s =
     say_v5 [MainMenu]
       ((say_v5 [ExitingLiveMonitor] s)\<lparr> currentMode := MODE_IDLE, motorState := MOTOR_IDLE \<rparr>)"

text \<open>\<^verbatim>\<open>enterNormalTestMode\<close> and \<^verbatim>\<open>exitNormalTestMode\<close>, lines 697 to 739.\<close>

definition enterNormalTestMode :: "tick_v5 \<Rightarrow> int \<Rightarrow> v5 \<Rightarrow> v5" where
  "enterNormalTestMode i testIndex s =
     (if testIndex < 0 \<or> testIndex \<ge> 8 then say_v5 [InvalidTestIndex] s
      else (let s1 = s\<lparr> currentMode := MODE_NORMAL_TEST, motorState := MOTOR_MOVING_DOWN,
                         currentTestIndex_v5 := testIndex \<rparr>;
                test = tests_v5 ! nat testIndex;
                s2 = say_v5 [NormalTestBanner test] s1;
                s3 = s2\<lparr> contactDetected := False, lastSampledPosition := homePosition_v5 s2 \<rparr>;
                s4 = s3\<lparr> targetPosition_v5 := homePosition_v5 s3 + testDistance_v5 \<rparr>;
                s5 = s4\<lparr> stepper_v5 := moveTo (targetPosition_v5 s4)
                           (setAcceleration 0 (setMaxSpeed (speed test) (stepper_v5 s4))) \<rparr>;
                s6 = startStreaming (now_cmd i) s5
            in say_v5 [MovingDown] s6))"


text \<open>The auto sequence, lines 773 to 822.\<close>

definition enterAutoSequenceMode :: "v5 \<Rightarrow> v5" where
  "enterAutoSequenceMode s =
     say_v5 [AutoSequenceBanner]
       (s\<lparr> currentMode := MODE_AUTO_SEQUENCE, motorState := MOTOR_IDLE, nextAutoTestIndex := 0 \<rparr>)"








text \<open>The calibration workflow, lines 1027 to 1162.\<close>

definition exitCalibrationMode :: "v5 \<Rightarrow> v5" where
  "exitCalibrationMode s =
     say_v5 [MainMenu]
       (resetFilters_v5
          ((say_v5 [ExitingCalibration] s)\<lparr> currentMode := MODE_IDLE, motorState := MOTOR_IDLE \<rparr>))"



text \<open>\<^verbatim>\<open>handleSerialCommand\<close>, lines 908 to 990, for the byte \<open>cmd\<close> that was read.\<close>

definition goHome_v5 :: "v5 \<Rightarrow> v5" where
  "goHome_v5 s =
     (let s1 = say_v5 [GoingHome] s;
          s2 = s1\<lparr> stepper_v5 := moveTo (homePosition_v5 s1)
                     (setAcceleration homeAccel (setMaxSpeed homeSpeed (stepper_v5 s1))) \<rparr>;
          s3 = s2\<lparr> stepper_v5 := run_to_target (stepper_v5 s2) \<rparr>
      in say_v5 [HomeReached_v5] s3)"

definition handleSerialCommand :: "tick_v5 \<Rightarrow> char \<Rightarrow> v5 \<Rightarrow> v5" where
  "handleSerialCommand i cmd s =
     (if cmd = CHR ''Q'' \<or> cmd = CHR ''q''
      then (if currentMode s \<noteq> MODE_IDLE
            then (let s1 = stopStreaming s;
                      s2 = s1\<lparr> stepper_v5 := stop (overrun_v5 i) (stepper_v5 s1) \<rparr>;
                      s3 = s2\<lparr> motorState := MOTOR_IDLE, currentMode := MODE_IDLE \<rparr>
                  in say_v5 [ReturningToIdle, MainMenu] s3)
            else s)
      else if motorState s \<noteq> MOTOR_IDLE \<and>
              \<not> (cmd = CHR ''S'' \<or> cmd = CHR ''s'' \<or> cmd = CHR ''R'' \<or> cmd = CHR ''r'')
      then s
      else if (of_char cmd :: nat) \<ge> of_char CHR ''1'' \<and> (of_char cmd :: nat) \<le> of_char CHR ''8''
      then enterNormalTestMode i (int (of_char cmd) - int (of_char CHR ''1'')) s
      else if cmd = CHR ''M'' \<or> cmd = CHR ''m'' then enterLiveMonitorMode i s
      else if cmd = CHR ''A'' \<or> cmd = CHR ''a'' then enterAutoSequenceMode s
      else if cmd = CHR ''C'' \<or> cmd = CHR ''c'' then s\<lparr> currentMode := MODE_CALIBRATION \<rparr>
      else if cmd = CHR ''T'' \<or> cmd = CHR ''t'' then say_v5 [TaringScale] s
      else if cmd = CHR ''0''
      then say_v5 [HomePositionSet] (s\<lparr> homePosition_v5 := currentPosition (stepper_v5 s) \<rparr>)
      else if cmd = CHR ''H'' \<or> cmd = CHR ''h'' then goHome_v5 s
      else if cmd = CHR ''S'' \<or> cmd = CHR ''s''
      then (if motorState s \<noteq> MOTOR_IDLE
            then (let s1 = s\<lparr> stepper_v5 := stop (overrun_v5 i) (stepper_v5 s) \<rparr>;
                      s2 = stopStreaming s1;
                      s3 = s2\<lparr> motorState := MOTOR_IDLE \<rparr>
                  in say_v5 [TestStopped_v5] s3)
            else s)
      else s)"

text \<open>One pass of \<^verbatim>\<open>loop()\<close>, lines 557 to 599.\<close>

definition after_commands :: "tick_v5 \<Rightarrow> v5 \<Rightarrow> v5" where
  "after_commands i s =
     (if currentMode s \<noteq> MODE_CALIBRATION
      then (case rx_v5 i of [] \<Rightarrow> s | cmd # rest \<Rightarrow> handleSerialCommand i cmd s)
      else s)"








text \<open>The calibration factor is the same in two states: in the EEPROM, in the variable
  \<^verbatim>\<open>calibrationFactor\<close>, and in the load cell driver.\<close>

definition same_factor :: "v5 \<Rightarrow> v5 \<Rightarrow> bool" where
  "same_factor s s' \<longleftrightarrow>
     eeprom s' = eeprom s \<and> calibrationFactor s' = calibrationFactor s \<and> calFactor s' = calFactor s"

subsection \<open>Inputs used in the examples\<close>

text \<open>A pass with no serial input and raw reading \<open>r\<close>; a pass in which the byte \<open>c\<close> has
  arrived; a pass in which \<^verbatim>\<open>C\<close> has arrived and the operator completes the calibration
  with mass \<open>m\<close>, the load cell computing the factor \<open>f\<close>; and the passes that start test 3
  and advance the motor by seven steps.\<close>

definition quiet_v5 :: "bool \<Rightarrow> real \<Rightarrow> tick_v5" where
  "quiet_v5 d r = \<lparr> rx_v5 = [], rx_estop = [], due_v5 = d, overrun_v5 = 0, now_cmd = 0,
     now_v5 = 0, raw = r, tare_done = False,
     cal = \<lparr> tare_requested = False, tare_status = False, mass_typed = None, new_factor = 0 \<rparr> \<rparr>"





subsection \<open>Overload: the latch and the halted planner\<close>

lemma after_commands_quiet: "rx_v5 i = [] \<Longrightarrow> after_commands i s = s"
  by (simp add: after_commands_def)




lemma stopStreaming_fields:
  "stepper_v5 (stopStreaming s) = stepper_v5 s"
  "emergencyStop (stopStreaming s) = emergencyStop s"
  "motorState (stopStreaming s) = motorState s"
  "currentMode (stopStreaming s) = currentMode s"
  "\<not> isStreaming (stopStreaming s)"
  "eeprom (stopStreaming s) = eeprom s"
  "calibrationFactor (stopStreaming s) = calibrationFactor s"
  "calFactor (stopStreaming s) = calFactor s"
  by (simp_all add: stopStreaming_def say_v5_def)












subsection \<open>The calibration factor is changed by the calibration workflow only\<close>




lemma same_factor_stopStreaming: "same_factor s (stopStreaming s)"
  by (simp add: same_factor_def stopStreaming_fields)








lemma same_factor_streamDataPoint:
  "streamDataPoint i f p s = Inr s' \<Longrightarrow> same_factor s s'"
  by (auto simp: same_factor_def streamDataPoint_def say_v5_def split: sum.splits)




lemma same_factor_exitCalibrationMode: "same_factor s (exitCalibrationMode s)"
  by (simp add: same_factor_def exitCalibrationMode_def say_v5_def resetFilters_v5_def)






subsection \<open>The claims about the mode-based tester\<close>




text \<open>
  Claim C8. For every index below 0 or at least 8, \<^verbatim>\<open>enterNormalTestMode\<close> writes the
  error line and changes nothing else: the mode, the motor sub-state, the planner, the
  streaming session and every other variable are as before.
\<close>

theorem invalid_index_rejected:
  assumes "testIndex < 0 \<or> 8 \<le> testIndex"
  shows "enterNormalTestMode i testIndex s = s\<lparr> out_v5 := out_v5 s @ [InvalidTestIndex] \<rparr> \<and>
         currentMode (enterNormalTestMode i testIndex s) = currentMode s \<and>
         motorState (enterNormalTestMode i testIndex s) = motorState s \<and>
         stepper_v5 (enterNormalTestMode i testIndex s) = stepper_v5 s \<and>
         isStreaming (enterNormalTestMode i testIndex s) = isStreaming s"
  using assms by (auto simp: enterNormalTestMode_def say_v5_def)

text \<open>The theorem at the power-up state, for the index 8.\<close>

theorem invalid_index_rejected_witness:
  "(8 :: int) \<ge> 8 \<and>
   enterNormalTestMode (quiet_v5 False 0) 8 (power_up (\<lambda>a. 0))
     = (power_up (\<lambda>a. 0))\<lparr> out_v5 := [InvalidTestIndex] \<rparr> \<and>
   currentMode (enterNormalTestMode (quiet_v5 False 0) 8 (power_up (\<lambda>a. 0))) = MODE_IDLE"
  using invalid_index_rejected [of 8 "quiet_v5 False 0" "power_up (\<lambda>a. 0)"]
  by (simp add: power_up_def)





end
